theory Spec2Isabelle
  imports Main
begin

section \<open>Python strings\<close>

text \<open>
  A Python \<^verbatim>\<open>str\<close> is a sequence of Unicode code points, so a string is a list of
  natural numbers. \<open>asc\<close> embeds an ASCII literal.
\<close>

type_synonym pystr = "nat list"

definition asc :: "string \<Rightarrow> pystr" where
  "asc s = map of_char s"

text \<open>The code points \<^verbatim>\<open>str.isspace\<close> accepts; \<^verbatim>\<open>str.strip()\<close> removes them.\<close>

definition isspace :: "nat \<Rightarrow> bool" where
  "isspace c \<longleftrightarrow>
     (9 \<le> c \<and> c \<le> 13) \<or> (28 \<le> c \<and> c \<le> 32) \<or> c = 133 \<or> c = 160 \<or> c = 5760 \<or>
     (8192 \<le> c \<and> c \<le> 8202) \<or> c = 8232 \<or> c = 8233 \<or> c = 8239 \<or> c = 8287 \<or> c = 12288"

definition lstrip :: "pystr \<Rightarrow> pystr" where
  "lstrip s = dropWhile isspace s"

definition rstrip :: "pystr \<Rightarrow> pystr" where
  "rstrip s = rev (dropWhile isspace (rev s))"

definition strip :: "pystr \<Rightarrow> pystr" where
  "strip s = rstrip (lstrip s)"

text \<open>\<^verbatim>\<open>s.rstrip(c)\<close> and \<^verbatim>\<open>s.lstrip(c)\<close> for a one-character argument.\<close>

definition rstrip_char :: "nat \<Rightarrow> pystr \<Rightarrow> pystr" where
  "rstrip_char c s = rev (dropWhile (\<lambda>x. x = c) (rev s))"

definition startswith :: "pystr \<Rightarrow> pystr \<Rightarrow> bool" where
  "startswith s p \<longleftrightarrow> take (length p) s = p"

definition endswith :: "pystr \<Rightarrow> pystr \<Rightarrow> bool" where
  "endswith s p \<longleftrightarrow> startswith (rev s) (rev p)"

text \<open>\<^verbatim>\<open>s.split(d)\<close> for a one-character separator: never an empty list.\<close>

fun split_char :: "nat \<Rightarrow> pystr \<Rightarrow> pystr list" where
  "split_char d [] = [[]]"
| "split_char d (c # cs) =
     (if c = d then [] # split_char d cs
      else (case split_char d cs of
              w # ws \<Rightarrow> (c # w) # ws
            | [] \<Rightarrow> [[c]]))"

text \<open>\<^verbatim>\<open>d.join(xs)\<close>.\<close>

fun join_str :: "pystr \<Rightarrow> pystr list \<Rightarrow> pystr" where
  "join_str d [] = []"
| "join_str d [x] = x"
| "join_str d (x # y # ys) = x @ d @ join_str d (y # ys)"

section \<open>Exceptions\<close>

text \<open>
  The exceptions the modelled code can meet, each with the text \<^verbatim>\<open>str(e)\<close> gives.
  All of them are subclasses of \<^verbatim>\<open>Exception\<close>.
\<close>

datatype py_exception =
    OSError pystr
  | UnicodeDecodeError pystr
  | UnicodeEncodeError pystr
  | ValueError pystr
  | SyntaxError pystr
  | OtherException pystr

fun exc_str :: "py_exception \<Rightarrow> pystr" where
  "exc_str (OSError m) = m"
| "exc_str (UnicodeDecodeError m) = m"
| "exc_str (UnicodeEncodeError m) = m"
| "exc_str (ValueError m) = m"
| "exc_str (SyntaxError m) = m"
| "exc_str (OtherException m) = m"

section \<open>posixpath\<close>

text \<open>
  The functions of \<^verbatim>\<open>os.path\<close> the scanner calls, as \<^verbatim>\<open>posixpath\<close> defines them.
  The current working directory, which \<^verbatim>\<open>abspath\<close> reads from the process, is the
  parameter \<open>cwd\<close>.
\<close>

definition sep :: nat where
  "sep = of_char CHR ''/''"

definition curdir :: pystr where
  "curdir = asc ''.''"

definition pardir :: pystr where
  "pardir = asc ''..''"

text \<open>\<^verbatim>\<open>i = p.rfind('/') + 1; return p[i:]\<close>\<close>

definition basename :: "pystr \<Rightarrow> pystr" where
  "basename p = rev (takeWhile (\<lambda>c. c \<noteq> sep) (rev p))"

definition isabs :: "pystr \<Rightarrow> bool" where
  "isabs p \<longleftrightarrow> startswith p [sep]"

text \<open>\<^verbatim>\<open>os.path.join(a, b)\<close> for two arguments.\<close>

definition join :: "pystr \<Rightarrow> pystr \<Rightarrow> pystr" where
  "join a b =
     (if startswith b [sep] then b
      else if a = [] \<or> endswith a [sep] then a @ b
      else a @ [sep] @ b)"

text \<open>
  One round of the loop of \<^verbatim>\<open>normpath\<close> over the components; \<open>initial_slashes\<close> is
  0, 1 or 2.
\<close>

definition normpath_step :: "nat \<Rightarrow> pystr list \<Rightarrow> pystr \<Rightarrow> pystr list" where
  "normpath_step initial_slashes new_comps component =
     (if component = [] \<or> component = curdir then new_comps
      else if component \<noteq> pardir \<or> (initial_slashes = 0 \<and> new_comps = []) \<or>
              (new_comps \<noteq> [] \<and> last new_comps = pardir)
           then new_comps @ [component]
      else if new_comps \<noteq> [] then butlast new_comps
      else new_comps)"

definition normpath :: "pystr \<Rightarrow> pystr" where
  "normpath path =
     (if path = [] then curdir
      else
        let initial_slashes =
              (if startswith path [sep] then
                 (if startswith path [sep, sep] \<and> \<not> startswith path [sep, sep, sep]
                  then 2 else 1)
               else 0);
            comps = foldl (normpath_step initial_slashes) [] (split_char sep path);
            path' = replicate initial_slashes sep @ join_str [sep] comps
        in if path' = [] then curdir else path')"

definition abspath :: "pystr \<Rightarrow> pystr \<Rightarrow> pystr" where
  "abspath cwd path = normpath (if isabs path then path else join cwd path)"

fun commonprefix :: "'a list \<Rightarrow> 'a list \<Rightarrow> 'a list" where
  "commonprefix (x # xs) (y # ys) = (if x = y then x # commonprefix xs ys else [])"
| "commonprefix _ _ = []"

text \<open>\<^verbatim>\<open>os.path.relpath(path, start)\<close>: raises \<^verbatim>\<open>ValueError\<close> on the empty path.\<close>

definition relpath :: "pystr \<Rightarrow> pystr \<Rightarrow> pystr \<Rightarrow> py_exception + pystr" where
  "relpath cwd path start =
     (if path = [] then Inl (ValueError (asc ''no path specified''))
      else
        let start_list = filter (\<lambda>x. x \<noteq> []) (split_char sep (abspath cwd start));
            path_list = filter (\<lambda>x. x \<noteq> []) (split_char sep (abspath cwd path));
            i = length (commonprefix start_list path_list);
            rel_list = replicate (length start_list - i) pardir @ drop i path_list
        in if rel_list = [] then Inr curdir else Inr (join_str [sep] rel_list))"

section \<open>The ignore patterns\<close>

text \<open>
  The scanner object: \<^verbatim>\<open>root_path\<close> is absolute, \<^verbatim>\<open>ignore_patterns\<close> is what
  \<^verbatim>\<open>_load_gitignore\<close> returned.
\<close>

record scanner =
  root_path :: pystr
  output_file :: pystr
  ignore_patterns :: "pystr list"

text \<open>
  Iterating over an open text file yields lines, each with its line end, until the file
  ends or a read raises (an I/O error, or bytes that are not UTF-8 in a later block of the
  file). \<open>Fail\<close> at the head is also how \<^verbatim>\<open>open\<close> itself fails.
\<close>

datatype line_stream = Eof | Line pystr line_stream | Fail py_exception

text \<open>A file system maps a path to the text file there, if one exists.\<close>

type_synonym filesystem = "pystr \<Rightarrow> line_stream option"

definition default_patterns :: "pystr list" where
  "default_patterns =
     [asc ''.git'', asc ''.idea'', asc ''.vscode'', asc ''__pycache__'',
      asc ''*.pyc'', asc ''*.pyo'', asc ''.DS_Store'', asc ''venv'', asc ''env'', asc ''.env'']"

text \<open>
  The body of the \<^verbatim>\<open>try\<close> block: the loop over the lines appends to \<open>patterns\<close> in
  place; the result is the list as it stands when the loop ends, and the exception that
  ended it, if any.
\<close>

fun read_lines :: "line_stream \<Rightarrow> pystr list \<Rightarrow> pystr list \<times> py_exception option" where
  "read_lines Eof patterns = (patterns, None)"
| "read_lines (Fail e) patterns = (patterns, Some e)"
| "read_lines (Line l rest) patterns =
     (let line = strip l
      in if line \<noteq> [] \<and> \<not> startswith line (asc ''#'')
         then read_lines rest (patterns @ [rstrip_char sep line])
         else read_lines rest patterns)"

text \<open>The text before \<^verbatim>\<open>{e}\<close> in the warning that \<^verbatim>\<open>_load_gitignore\<close> prints.\<close>

definition warning_prefix :: pystr where
  "warning_prefix =
     [9888, 65039, 32, 35835, 21462, 32] @ asc ''.gitignore'' @ [32, 22833, 36133] @ asc '': ''"

text \<open>
  The standard output of the process: what writing a line to it raises, if anything. A
  line with a character the encoding of the stream cannot express raises
  \<^verbatim>\<open>UnicodeEncodeError\<close>, and then nothing of it is written.
\<close>

type_synonym stdout = "pystr \<Rightarrow> py_exception option"

text \<open>\<^verbatim>\<open>print(message)\<close>: the lines on the console after it, or the exception.\<close>

definition print_line :: "stdout \<Rightarrow> pystr list \<Rightarrow> pystr \<Rightarrow> py_exception + pystr list" where
  "print_line out console message =
     (case out message of
        None \<Rightarrow> Inr (console @ [message])
      | Some e \<Rightarrow> Inl e)"

text \<open>
  \<^verbatim>\<open>_load_gitignore\<close>: the patterns returned, or the exception that leaves the
  function, and the lines printed to the console. The \<^verbatim>\<open>print\<close> of the handler is not
  itself guarded: what it raises leaves the function.
\<close>

definition load_gitignore ::
  "stdout \<Rightarrow> filesystem \<Rightarrow> pystr \<Rightarrow> (py_exception + pystr list) \<times> pystr list" where
  "load_gitignore out fs root =
     (let patterns = default_patterns;
          gitignore_path = join root (asc ''.gitignore'')
      in case fs gitignore_path of
           None \<Rightarrow> (Inr patterns, [])
         | Some f \<Rightarrow>
             (case read_lines f patterns of
                (patterns', None) \<Rightarrow> (Inr patterns', [])
              | (patterns', Some e) \<Rightarrow>
                  (case print_line out [] (warning_prefix @ exc_str e) of
                     Inl e' \<Rightarrow> (Inl e', [])
                   | Inr console \<Rightarrow> (Inr patterns', console))))"

section \<open>fnmatch\<close>

text \<open>
  \<^verbatim>\<open>fnmatch.fnmatch(name, pat)\<close> on POSIX, where \<^verbatim>\<open>normcase\<close> changes nothing:
  \<^verbatim>\<open>translate\<close> turns the pattern into a regular expression, which must match the
  whole name. The model keeps the steps of \<^verbatim>\<open>translate\<close> and gives each piece of the
  regular expression as an item with its meaning.
\<close>

datatype glob_item =
    Star
  | AnyChar
  | Lit nat
  | Never
  | CharSet bool "(nat \<times> nat) list"

definition hyphen :: nat where
  "hyphen = of_char CHR ''-''"

definition rbracket :: nat where
  "rbracket = of_char CHR '']''"

definition bang :: nat where
  "bang = of_char CHR ''!''"

text \<open>
  After a \<^verbatim>\<open>[\<close>: the index \<open>j\<close> of the closing bracket in the rest of the pattern,
  skipping a leading \<^verbatim>\<open>!\<close> and a \<^verbatim>\<open>]\<close> right after it; \<open>None\<close> when \<open>j\<close>
  runs off the end.
\<close>

definition close_index :: "pystr \<Rightarrow> nat option" where
  "close_index pat =
     (let j0 = (if 0 < length pat \<and> pat ! 0 = bang then 1 else 0);
          j1 = (if j0 < length pat \<and> pat ! j0 = rbracket then j0 + 1 else j0);
          j = j1 + length (takeWhile (\<lambda>c. c \<noteq> rbracket) (drop j1 pat))
      in if j \<ge> length pat then None else Some j)"

text \<open>\<^verbatim>\<open>s.find(c, k)\<close>, with \<open>None\<close> for -1.\<close>

definition find_from :: "nat \<Rightarrow> nat \<Rightarrow> pystr \<Rightarrow> nat option" where
  "find_from c k s =
     (let n = k + length (takeWhile (\<lambda>x. x \<noteq> c) (drop k s))
      in if n < length s then Some n else None)"

text \<open>
  The loop that cuts the text between the brackets at the hyphens that make ranges: the
  search starts at \<open>k\<close>, and two characters after each cut. The last piece is
  \<^verbatim>\<open>pat[i:j]\<close>, possibly empty.
\<close>

function split_ranges :: "nat \<Rightarrow> pystr \<Rightarrow> pystr list" where
  "split_ranges k s =
     (case find_from hyphen k s of
        None \<Rightarrow> [s]
      | Some p \<Rightarrow> take p s # split_ranges 2 (drop (Suc p) s))"
  by pat_completeness auto
termination
  by (relation "measure (\<lambda>(k, s). length s)")
     (auto simp: find_from_def Let_def split: if_splits)

text \<open>
  \<^verbatim>\<open>if chunk: chunks.append(chunk) else: chunks[-1] += '-'\<close>. An empty last piece comes
  after a cut, so there is a chunk before it.
\<close>

definition close_chunks :: "pystr list \<Rightarrow> pystr list" where
  "close_chunks pieces =
     (if pieces \<noteq> [] \<and> last pieces = [] then
        (case butlast pieces of
           [] \<Rightarrow> []
         | c # cs \<Rightarrow> butlast (c # cs) @ [last (c # cs) @ [hyphen]])
      else pieces)"

text \<open>
  \<^verbatim>\<open>for k in range(len(chunks)-1, 0, -1)\<close>: an empty range (its lower end above its
  upper end) is removed with both its ends. The chunks compared are not empty.
\<close>

fun remove_empty_ranges :: "pystr list \<Rightarrow> pystr list" where
  "remove_empty_ranges [] = []"
| "remove_empty_ranges (a # rest) =
     (case remove_empty_ranges rest of
        [] \<Rightarrow> [a]
      | b # bs \<Rightarrow>
          if a \<noteq> [] \<and> b \<noteq> [] \<and> last a > hd b then (butlast a @ tl b) # bs
          else a # b # bs)"

text \<open>
  The text of the character set is \<^verbatim>\<open>'-'.join(chunks)\<close>, with the backslashes and
  hyphens inside a chunk escaped: a character of a chunk stands for itself, and only the
  hyphens of the join are bare.
\<close>

datatype class_token = Ch nat | Dash

fun join_chunks :: "pystr list \<Rightarrow> class_token list" where
  "join_chunks [] = []"
| "join_chunks [c] = map Ch c"
| "join_chunks (c # d # cs) = map Ch c @ Dash # join_chunks (d # cs)"

fun token_char :: "class_token \<Rightarrow> nat" where
  "token_char (Ch c) = c"
| "token_char Dash = hyphen"

text \<open>
  How the regular expression reads the set: an item followed by a bare hyphen and another
  item is the range between them, a bare hyphen at the end is a hyphen, and so is one
  where an item is expected. Every item is a range, from a character to itself when it
  stands alone.
\<close>

fun class_ranges :: "class_token list \<Rightarrow> (nat \<times> nat) list" where
  "class_ranges [] = []"
| "class_ranges [t] = [(token_char t, token_char t)]"
| "class_ranges [t, Dash] = [(token_char t, token_char t), (hyphen, hyphen)]"
| "class_ranges (t # Dash # u # rest) = (token_char t, token_char u) # class_ranges rest"
| "class_ranges (t # Ch c # rest) = (token_char t, token_char t) # class_ranges (Ch c # rest)"

definition in_ranges :: "(nat \<times> nat) list \<Rightarrow> nat \<Rightarrow> bool" where
  "in_ranges ranges c = list_ex (\<lambda>(lo, hi). lo \<le> c \<and> c \<le> hi) ranges"

text \<open>
  The item for \<^verbatim>\<open>[stuff]\<close>: nothing matches the empty set, a lone \<^verbatim>\<open>!\<close> matches any
  character, and a leading \<^verbatim>\<open>!\<close> negates the rest.
\<close>

definition bracket_item :: "pystr \<Rightarrow> glob_item" where
  "bracket_item stuff =
     (let chunks =
            (if hyphen \<notin> set stuff then [stuff]
             else remove_empty_ranges
                    (close_chunks
                       (split_ranges (if 0 < length stuff \<and> stuff ! 0 = bang then 2 else 1) stuff)));
          tokens = join_chunks chunks
      in if tokens = [] then Never
         else if tokens = [Ch bang] then AnyChar
         else if hd tokens = Ch bang then CharSet True (class_ranges (tl tokens))
         else CharSet False (class_ranges tokens))"

fun translate :: "pystr \<Rightarrow> glob_item list" where
  "translate [] = []"
| "translate (c # pat) =
     (if c = of_char CHR ''*'' then Star # translate pat
      else if c = of_char CHR ''?'' then AnyChar # translate pat
      else if c = of_char CHR ''['' then
        (case close_index pat of
           None \<Rightarrow> Lit c # translate pat
         | Some j \<Rightarrow> bracket_item (take j pat) # translate (drop (Suc j) pat))
      else Lit c # translate pat)"

text \<open>The regular expression matches the whole string.\<close>

fun match_items :: "glob_item list \<Rightarrow> pystr \<Rightarrow> bool" where
  "match_items [] s = (s = [])"
| "match_items (Star # items) [] = match_items items []"
| "match_items (Star # items) (x # t) =
     (match_items items (x # t) \<or> match_items (Star # items) t)"
| "match_items (item # items) [] = False"
| "match_items (AnyChar # items) (x # t) = match_items items t"
| "match_items (Lit c # items) (x # t) = (x = c \<and> match_items items t)"
| "match_items (Never # items) (x # t) = False"
| "match_items (CharSet negated ranges # items) (x # t) =
     (in_ranges ranges x \<noteq> negated \<and> match_items items t)"

definition fnmatch :: "pystr \<Rightarrow> pystr \<Rightarrow> bool" where
  "fnmatch name pat = match_items (translate pat) name"

section \<open>\<^verbatim>\<open>_is_ignored\<close>\<close>

text \<open>The loop over the patterns: the first of the three tests that succeeds returns.\<close>

fun ignore_loop :: "pystr \<Rightarrow> pystr \<Rightarrow> bool \<Rightarrow> pystr list \<Rightarrow> bool" where
  "ignore_loop name rel_path is_dir [] = False"
| "ignore_loop name rel_path is_dir (pattern # rest) =
     (if fnmatch name pattern then True
      else if fnmatch rel_path pattern then True
      else if is_dir \<and> fnmatch name (rstrip_char sep pattern) then True
      else ignore_loop name rel_path is_dir rest)"

text \<open>
  \<^verbatim>\<open>_is_ignored(path, is_dir)\<close>. Nothing catches the \<^verbatim>\<open>ValueError\<close> of
  \<^verbatim>\<open>relpath\<close>, so it is a result.
\<close>

definition is_ignored :: "pystr \<Rightarrow> scanner \<Rightarrow> pystr \<Rightarrow> bool \<Rightarrow> py_exception + bool" where
  "is_ignored cwd self path is_dir =
     (let name = basename path
      in case relpath cwd path (root_path self) of
           Inl e \<Rightarrow> Inl e
         | Inr rel_path \<Rightarrow>
             if rel_path = asc ''.'' then Inr False
             else Inr (ignore_loop name rel_path is_dir (ignore_patterns self)))"

text \<open>
  \<^verbatim>\<open>__init__\<close>: the scanner, or the exception that loading let out, and what loading
  printed.
\<close>

definition init_scanner ::
  "pystr \<Rightarrow> stdout \<Rightarrow> filesystem \<Rightarrow> pystr \<Rightarrow> pystr \<Rightarrow> (py_exception + scanner) \<times> pystr list" where
  "init_scanner cwd out fs root output_filename =
     (let root' = abspath cwd root
      in case load_gitignore out fs root' of
           (Inl e, console) \<Rightarrow> (Inl e, console)
         | (Inr patterns, console) \<Rightarrow>
             (Inr \<lparr>root_path = root', output_file = output_filename,
                   ignore_patterns = patterns\<rparr>,
              console))"

section \<open>\<^verbatim>\<open>_get_definitions\<close>\<close>

text \<open>
  A node of the syntax tree \<^verbatim>\<open>ast.parse\<close> returns: the three classes the extractor
  tests for, with the \<^verbatim>\<open>name\<close> field, and every other class. \<open>children\<close> is what
  \<^verbatim>\<open>ast.iter_child_nodes\<close> yields, in its order.
\<close>

datatype node =
    FunctionDef (name: pystr) (children: "node list")
  | AsyncFunctionDef (name: pystr) (children: "node list")
  | ClassDef (name: pystr) (children: "node list")
  | Other (children: "node list")

text \<open>
  \<^verbatim>\<open>ast.walk\<close>: a queue that starts with the tree; each node taken from the front is
  yielded and its children are put at the back.
\<close>

function walk :: "node list \<Rightarrow> node list" where
  "walk [] = []"
| "walk (node # todo) = node # walk (todo @ children node)"
  by pat_completeness auto
termination
proof (relation "measure (\<lambda>todo. sum_list (map size todo))")
  show "wf (measure (\<lambda>todo. sum_list (map size todo)))"
    by simp
next
  fix node :: node and todo :: "node list"
  have "sum_list (map size (children node)) < size node"
    by (cases node) (simp_all add: size_list_conv_sum_list)
  then show "(todo @ children node, node # todo) \<in> measure (\<lambda>todo. sum_list (map size todo))"
    by simp
qed

text \<open>The three literals that open an entry: a padlock, a lightning bolt, a parcel.\<close>

definition private_prefix :: pystr where
  "private_prefix = [128274, 32]"

definition public_prefix :: pystr where
  "public_prefix = [9889, 32]"

definition class_prefix :: pystr where
  "class_prefix = [128230, 32]"

text \<open>The body of the loop over the nodes: \<open>definitions\<close> before and after.\<close>

definition visit :: "pystr list \<Rightarrow> node \<Rightarrow> pystr list" where
  "visit definitions node =
     (if is_FunctionDef node \<or> is_AsyncFunctionDef node then
        (let prefix = (if startswith (name node) (asc ''_'') then private_prefix
                       else public_prefix)
         in definitions @ [prefix @ asc ''def '' @ name node])
      else if is_ClassDef node then definitions @ [class_prefix @ asc ''class '' @ name node]
      else definitions)"

text \<open>How control leaves the \<^verbatim>\<open>try\<close> block.\<close>

datatype flow = Raised py_exception | Returned "pystr list" | Completed

text \<open>
  The \<^verbatim>\<open>try\<close> block. \<open>read_text\<close> is \<^verbatim>\<open>open(file_path, errors="ignore")\<close> and
  \<^verbatim>\<open>f.read()\<close>, \<open>parse\<close> is \<^verbatim>\<open>ast.parse\<close>; either may raise. The result is how the
  block ends and the list \<open>definitions\<close> at that moment.
\<close>

definition try_body ::
  "(pystr \<Rightarrow> py_exception + pystr) \<Rightarrow> (pystr \<Rightarrow> py_exception + node) \<Rightarrow> pystr \<Rightarrow>
   pystr list \<Rightarrow> flow \<times> pystr list" where
  "try_body read_text parse file_path definitions =
     (case read_text file_path of
        Inl e \<Rightarrow> (Raised e, definitions)
      | Inr content \<Rightarrow>
          if strip content = [] then (Returned [], definitions)
          else (case parse content of
                  Inl e \<Rightarrow> (Raised e, definitions)
                | Inr tree \<Rightarrow> (Completed, foldl visit definitions (walk [tree]))))"

text \<open>
  \<^verbatim>\<open>_get_definitions\<close>: \<^verbatim>\<open>except Exception: pass\<close> goes on to
  \<^verbatim>\<open>return definitions\<close>.
\<close>

definition get_definitions ::
  "(pystr \<Rightarrow> py_exception + pystr) \<Rightarrow> (pystr \<Rightarrow> py_exception + node) \<Rightarrow> pystr \<Rightarrow>
   pystr list" where
  "get_definitions read_text parse file_path =
     (case try_body read_text parse file_path [] of
        (Returned result, definitions) \<Rightarrow> result
      | (Raised e, definitions) \<Rightarrow> definitions
      | (Completed, definitions) \<Rightarrow> definitions)"

text \<open>
  Two fixtures for examples: a reader that finds the given content at every path, and a
  parser that returns the given outcome for every content.
\<close>

definition file_with :: "pystr \<Rightarrow> pystr \<Rightarrow> py_exception + pystr" where
  "file_with content file_path = Inr content"

definition parses_to :: "py_exception + node \<Rightarrow> pystr \<Rightarrow> py_exception + node" where
  "parses_to outcome content = outcome"

text \<open>A file system with one \<^verbatim>\<open>.gitignore\<close>, at the given path.\<close>

definition only_file :: "pystr \<Rightarrow> line_stream \<Rightarrow> filesystem" where
  "only_file p f q = (if q = p then Some f else None)"

text \<open>The lines \<open>ls\<close> and then the stream \<open>f\<close>.\<close>

fun lines_then :: "pystr list \<Rightarrow> line_stream \<Rightarrow> line_stream" where
  "lines_then [] f = f"
| "lines_then (l # ls) f = Line l (lines_then ls f)"

text \<open>
  Two standard outputs for examples: one encoded in UTF-8, which cannot express the
  surrogate code points, and one in ASCII. The text of their exception is abridged.
\<close>

definition utf8_stdout :: stdout where
  "utf8_stdout message =
     (if list_all (\<lambda>c. c < 55296 \<or> 57343 < c) message then None
      else Some (UnicodeEncodeError (asc ''surrogates not allowed'')))"

definition ascii_stdout :: stdout where
  "ascii_stdout message =
     (if list_all (\<lambda>c. c < 128) message then None
      else Some (UnicodeEncodeError (asc ''ordinal not in range(128)'')))"

section \<open>Properties of the extractor\<close>

lemma strip_empty_iff: "strip s = [] \<longleftrightarrow> (\<forall>c\<in>set s. isspace c)"
proof
  assume "strip s = []"
  then have all: "\<forall>c\<in>set (dropWhile isspace s). isspace c"
    by (simp add: strip_def rstrip_def lstrip_def dropWhile_eq_Nil_conv)
  have "dropWhile isspace s = []"
  proof (rule ccontr)
    assume ne: "dropWhile isspace s \<noteq> []"
    then have "\<not> isspace (hd (dropWhile isspace s))"
      by (rule hd_dropWhile)
    with all ne show False
      by simp
  qed
  then show "\<forall>c\<in>set s. isspace c"
    by (simp add: dropWhile_eq_Nil_conv)
next
  assume "\<forall>c\<in>set s. isspace c"
  then have "lstrip s = []"
    by (simp add: lstrip_def)
  then show "strip s = []"
    by (simp add: strip_def rstrip_def)
qed

text \<open>The loop only ever appends: what one node adds does not depend on the list so far.\<close>

lemma foldl_visit_append: "foldl visit ds ns = ds @ concat (map (visit []) ns)"
proof (induction ns arbitrary: ds)
  case Nil
  then show ?case by simp
next
  case (Cons n ns)
  have "visit ds n = ds @ visit [] n"
    by (simp add: visit_def Let_def)
  then show ?case
    using Cons.IH [of "visit ds n"] by simp
qed

lemma get_definitions_parsed:
  assumes "read_text file_path = Inr content" and "strip content \<noteq> []"
    and "parse content = Inr tree"
  shows "get_definitions read_text parse file_path = concat (map (visit []) (walk [tree]))"
  using assms by (simp add: get_definitions_def try_body_def foldl_visit_append)

lemma visit_node:
  "visit [] (FunctionDef n b) =
     [(if startswith n (asc ''_'') then private_prefix else public_prefix) @ asc ''def '' @ n]"
  "visit [] (AsyncFunctionDef n b) =
     [(if startswith n (asc ''_'') then private_prefix else public_prefix) @ asc ''def '' @ n]"
  "visit [] (ClassDef n b) = [class_prefix @ asc ''class '' @ n]"
  "visit [] (Other b) = []"
  by (simp_all add: visit_def Let_def)

lemma strip_ascii_examples:
  "strip (asc ''async def fetch(): pass'') \<noteq> []"
  "strip (asc ''def fetch(): pass'') \<noteq> []"
  "strip (asc ''class _Hidden: pass'') \<noteq> []"
  "strip (asc ''class Shown: pass'') \<noteq> []"
  "strip (asc ''def _helper(): pass'' @ [10] @ asc ''def run(): pass'') \<noteq> []"
  "strip (asc ''def broken(:'') \<noteq> []"
  by (simp_all add: strip_empty_iff asc_def isspace_def)

text \<open>
  C1 (as the code has it). When the file is read and parsed, every asynchronous function
  definition the walk meets gives one entry: the visibility marker, \<^verbatim>\<open>def\<close> and the
  name. It is the entry an ordinary function definition of that name gives: the output has
  one label for both and no kind of its own for asynchronous functions.
\<close>

theorem async_function_entry:
  assumes "read_text file_path = Inr content" and "strip content \<noteq> []"
    and "parse content = Inr tree" and "AsyncFunctionDef n body \<in> set (walk [tree])"
  shows "(if startswith n (asc ''_'') then private_prefix else public_prefix) @ asc ''def '' @ n
           \<in> set (get_definitions read_text parse file_path)
         \<and> visit ds (AsyncFunctionDef n body) = visit ds (FunctionDef n body)"
proof -
  have "visit [] (AsyncFunctionDef n body) \<in> visit [] ` set (walk [tree])"
    using assms(4) by (rule imageI)
  moreover have "get_definitions read_text parse file_path = concat (map (visit []) (walk [tree]))"
    using assms(1-3) by (rule get_definitions_parsed)
  ultimately have
    "set (visit [] (AsyncFunctionDef n body)) \<subseteq> set (get_definitions read_text parse file_path)"
    by auto
  moreover have "visit ds (AsyncFunctionDef n body) = visit ds (FunctionDef n body)"
    by (simp add: visit_def)
  ultimately show ?thesis
    by (simp add: visit_node)
qed

text \<open>
  The file \<^verbatim>\<open>async def fetch(): pass\<close>: a module with one asynchronous function, whose
  children are its arguments and its body.
\<close>

theorem async_function_entry_witness:
  "strip (asc ''async def fetch(): pass'') \<noteq> [] \<and>
   AsyncFunctionDef (asc ''fetch'') [Other [], Other []]
     \<in> set (walk [Other [AsyncFunctionDef (asc ''fetch'') [Other [], Other []]]]) \<and>
   public_prefix @ asc ''def fetch''
     \<in> set (get_definitions (file_with (asc ''async def fetch(): pass''))
               (parses_to (Inr (Other [AsyncFunctionDef (asc ''fetch'') [Other [], Other []]])))
               (asc ''a.py''))"
proof -
  let ?tree = "Other [AsyncFunctionDef (asc ''fetch'') [Other [], Other []]]"
  have h1: "file_with (asc ''async def fetch(): pass'') (asc ''a.py'')
              = Inr (asc ''async def fetch(): pass'')"
    by (simp add: file_with_def)
  have h2: "strip (asc ''async def fetch(): pass'') \<noteq> []"
    by (rule strip_ascii_examples)
  have h3: "parses_to (Inr ?tree) (asc ''async def fetch(): pass'') = Inr ?tree"
    by (simp add: parses_to_def)
  have h4: "AsyncFunctionDef (asc ''fetch'') [Other [], Other []] \<in> set (walk [?tree])"
    by simp
  have "\<not> startswith (asc ''fetch'') (asc ''_'')"
    by (simp add: startswith_def asc_def)
  with async_function_entry
         [of "file_with (asc ''async def fetch(): pass'')" "asc ''a.py''"
             "asc ''async def fetch(): pass''" "parses_to (Inr ?tree)" ?tree
             "asc ''fetch''" "[Other [], Other []]", OF h1 h2 h3 h4] h2 h4
  show ?thesis
    by (simp add: asc_def)
qed

text \<open>
  Against C1 as stated: the asynchronous \<^verbatim>\<open>fetch\<close> and the ordinary \<^verbatim>\<open>fetch\<close> give
  the same entry, so nothing in it tells an asynchronous function from an ordinary one.
\<close>

theorem async_kind_counterexample:
  "get_definitions (file_with (asc ''async def fetch(): pass''))
     (parses_to (Inr (Other [AsyncFunctionDef (asc ''fetch'') [Other [], Other []]])))
     (asc ''a.py'') = [public_prefix @ asc ''def fetch''] \<and>
   get_definitions (file_with (asc ''def fetch(): pass''))
     (parses_to (Inr (Other [FunctionDef (asc ''fetch'') [Other [], Other []]])))
     (asc ''a.py'') = [public_prefix @ asc ''def fetch'']"
proof -
  have "\<not> startswith (asc ''fetch'') (asc ''_'')"
    by (simp add: startswith_def asc_def)
  then show ?thesis
    by (simp add: get_definitions_parsed [where content = "asc ''async def fetch(): pass''"]
        get_definitions_parsed [where content = "asc ''def fetch(): pass''"]
        file_with_def parses_to_def strip_ascii_examples visit_node)
       (simp add: asc_def)
qed

text \<open>
  C2 (as the code has it). When the file is read and parsed, the extractor returns the
  entries of the nodes in walk order. The entry of a function or an asynchronous function
  opens with the private marker if and only if the name begins with an underscore, else
  with the public marker, and the two markers differ. The entry of a class opens with the
  one class marker whatever its name, and other nodes give no entry.
\<close>

theorem entry_visibility:
  assumes "read_text file_path = Inr content" and "strip content \<noteq> []"
    and "parse content = Inr tree"
  shows "get_definitions read_text parse file_path = concat (map (visit []) (walk [tree])) \<and>
         visit [] (FunctionDef n b) =
           [(if startswith n (asc ''_'') then private_prefix else public_prefix)
              @ asc ''def '' @ n] \<and>
         visit [] (AsyncFunctionDef n b) =
           [(if startswith n (asc ''_'') then private_prefix else public_prefix)
              @ asc ''def '' @ n] \<and>
         visit [] (ClassDef n b) = [class_prefix @ asc ''class '' @ n] \<and>
         visit [] (Other b) = [] \<and>
         private_prefix \<noteq> public_prefix \<and> class_prefix \<noteq> private_prefix \<and>
         class_prefix \<noteq> public_prefix"
proof -
  have "get_definitions read_text parse file_path = concat (map (visit []) (walk [tree]))"
    using assms by (rule get_definitions_parsed)
  moreover have "private_prefix \<noteq> public_prefix \<and> class_prefix \<noteq> private_prefix \<and>
      class_prefix \<noteq> public_prefix"
    by (simp add: private_prefix_def public_prefix_def class_prefix_def)
  ultimately show ?thesis
    by (simp add: visit_node)
qed

text \<open>
  A file with the functions \<^verbatim>\<open>_helper\<close> and \<^verbatim>\<open>run\<close>: the first entry is private,
  the second public.
\<close>

theorem entry_visibility_witness:
  "strip (asc ''def _helper(): pass'' @ [10] @ asc ''def run(): pass'') \<noteq> [] \<and>
   get_definitions (file_with (asc ''def _helper(): pass'' @ [10] @ asc ''def run(): pass''))
     (parses_to (Inr (Other [FunctionDef (asc ''_helper'') [Other [], Other []],
                             FunctionDef (asc ''run'') [Other [], Other []]])))
     (asc ''a.py'')
   = [private_prefix @ asc ''def _helper'', public_prefix @ asc ''def run'']"
proof -
  let ?content = "asc ''def _helper(): pass'' @ [10] @ asc ''def run(): pass''"
  let ?tree = "Other [FunctionDef (asc ''_helper'') [Other [], Other []],
                      FunctionDef (asc ''run'') [Other [], Other []]]"
  have h1: "file_with ?content (asc ''a.py'') = Inr ?content"
    by (simp add: file_with_def)
  have h2: "strip ?content \<noteq> []"
    by (rule strip_ascii_examples)
  have h3: "parses_to (Inr ?tree) ?content = Inr ?tree"
    by (simp add: parses_to_def)
  have names: "startswith (asc ''_helper'') (asc ''_'')" "\<not> startswith (asc ''run'') (asc ''_'')"
    by (simp_all add: startswith_def asc_def)
  have "get_definitions (file_with ?content) (parses_to (Inr ?tree)) (asc ''a.py'')
          = concat (map (visit []) (walk [?tree]))"
    using entry_visibility
            [of "file_with ?content" "asc ''a.py''" ?content "parses_to (Inr ?tree)" ?tree,
             OF h1 h2 h3]
    by (rule conjunct1)
  also have "\<dots> = [private_prefix @ asc ''def _helper'', public_prefix @ asc ''def run'']"
    using names by (simp add: visit_node) (simp add: asc_def)
  finally show ?thesis
    using h2 by simp
qed

text \<open>
  Against C2 as stated: the entries of the classes \<^verbatim>\<open>_Hidden\<close> and \<^verbatim>\<open>Shown\<close> open
  with the same marker, which is not the private one although \<^verbatim>\<open>_Hidden\<close> begins with
  an underscore.
\<close>

theorem class_visibility_counterexample:
  "get_definitions (file_with (asc ''class _Hidden: pass''))
     (parses_to (Inr (Other [ClassDef (asc ''_Hidden'') [Other []]])))
     (asc ''a.py'') = [class_prefix @ asc ''class _Hidden''] \<and>
   get_definitions (file_with (asc ''class Shown: pass''))
     (parses_to (Inr (Other [ClassDef (asc ''Shown'') [Other []]])))
     (asc ''a.py'') = [class_prefix @ asc ''class Shown''] \<and>
   startswith (asc ''_Hidden'') (asc ''_'') \<and>
   \<not> startswith (class_prefix @ asc ''class _Hidden'') private_prefix"
proof -
  have "startswith (asc ''_Hidden'') (asc ''_'')"
    by (simp add: startswith_def asc_def)
  moreover have "\<not> startswith (class_prefix @ asc ''class _Hidden'') private_prefix"
    by (simp add: startswith_def class_prefix_def private_prefix_def)
  ultimately show ?thesis
    by (simp add: get_definitions_parsed [where content = "asc ''class _Hidden: pass''"]
        get_definitions_parsed [where content = "asc ''class Shown: pass''"]
        file_with_def parses_to_def strip_ascii_examples visit_node)
       (simp add: asc_def)
qed

text \<open>
  C3. Whatever makes the \<^verbatim>\<open>try\<close> block raise, the extractor returns the empty list:
  when the file cannot be read, when \<^verbatim>\<open>ast.parse\<close> raises on its content, and in
  general whenever the block ends by an exception, at which moment nothing has been
  appended. The extractor hands every exception of the block to its handler, so its result
  is always a list.
\<close>

theorem extraction_failure_empty:
  "(read_text file_path = Inl e \<longrightarrow> get_definitions read_text parse file_path = []) \<and>
   (read_text file_path = Inr content \<and> parse content = Inl e \<longrightarrow>
      get_definitions read_text parse file_path = []) \<and>
   (try_body read_text parse file_path [] = (Raised e, ds) \<longrightarrow>
      ds = [] \<and> get_definitions read_text parse file_path = [])"
  by (auto simp: get_definitions_def try_body_def split: sum.splits if_splits)

text \<open>A file with an unmatched parenthesis, on which the parser raises a syntax error.\<close>

theorem extraction_failure_empty_witness:
  "file_with (asc ''def broken(:'') (asc ''bad.py'') = Inr (asc ''def broken(:'') \<and>
   parses_to (Inl (SyntaxError (asc ''invalid syntax''))) (asc ''def broken(:'')
     = Inl (SyntaxError (asc ''invalid syntax'')) \<and>
   strip (asc ''def broken(:'') \<noteq> [] \<and>
   get_definitions (file_with (asc ''def broken(:''))
     (parses_to (Inl (SyntaxError (asc ''invalid syntax'')))) (asc ''bad.py'') = []"
proof -
  have h: "file_with (asc ''def broken(:'') (asc ''bad.py'') = Inr (asc ''def broken(:'') \<and>
      parses_to (Inl (SyntaxError (asc ''invalid syntax''))) (asc ''def broken(:'')
        = Inl (SyntaxError (asc ''invalid syntax''))"
    by (simp add: file_with_def parses_to_def)
  from extraction_failure_empty
         [of "file_with (asc ''def broken(:'')" "asc ''bad.py''"
             "SyntaxError (asc ''invalid syntax'')"
             "parses_to (Inl (SyntaxError (asc ''invalid syntax'')))" "asc ''def broken(:''"]
  have "get_definitions (file_with (asc ''def broken(:''))
     (parses_to (Inl (SyntaxError (asc ''invalid syntax'')))) (asc ''bad.py'') = []"
    using h by blast
  with h show ?thesis
    by (simp add: strip_ascii_examples)
qed

text \<open>
  C8. When the content read is empty or all whitespace, the \<^verbatim>\<open>try\<close> block ends by
  \<^verbatim>\<open>return []\<close> with nothing appended, and the extractor returns the empty list,
  whatever the parser would do with that content: it is not called.
\<close>

theorem blank_content_empty:
  assumes "read_text file_path = Inr content" and "\<forall>c\<in>set content. isspace c"
  shows "try_body read_text parse file_path ds = (Returned [], ds) \<and>
         get_definitions read_text parse file_path = []"
proof -
  have "strip content = []"
    using assms(2) by (simp add: strip_empty_iff)
  with assms(1) show ?thesis
    by (simp add: get_definitions_def try_body_def)
qed

text \<open>
  A file of a space, a tab and a line end, with a parser that would return a function
  definition.
\<close>

theorem blank_content_empty_witness:
  "isspace 32 \<and> isspace 9 \<and> isspace 10 \<and>
   get_definitions (file_with [32, 9, 10])
     (parses_to (Inr (Other [FunctionDef (asc ''run'') []]))) (asc ''blank.py'') = []"
proof -
  have h1: "file_with [32, 9, 10] (asc ''blank.py'') = Inr [32, 9, 10]"
    by (simp add: file_with_def)
  have h2: "\<forall>c\<in>set [32, 9, 10]. isspace c"
    by (simp add: isspace_def)
  from blank_content_empty
         [of "file_with [32, 9, 10]" "asc ''blank.py''" "[32, 9, 10]"
             "parses_to (Inr (Other [FunctionDef (asc ''run'') []]))" "[]", OF h1 h2] h2
  show ?thesis
    by simp
qed

section \<open>Properties of the ignore patterns\<close>

lemma rstrip_char_unchanged: "s = [] \<or> last s \<noteq> c \<Longrightarrow> rstrip_char c s = s"
  by (cases s rule: rev_cases) (simp_all add: rstrip_char_def)

lemma rstrip_char_no_trailing: "rstrip_char c s = [] \<or> last (rstrip_char c s) \<noteq> c"
proof (cases "dropWhile (\<lambda>x. x = c) (rev s) = []")
  case True
  then show ?thesis
    by (simp add: rstrip_char_def)
next
  case False
  then have "hd (dropWhile (\<lambda>x. x = c) (rev s)) \<noteq> c"
    by (rule hd_dropWhile)
  with False show ?thesis
    by (simp add: rstrip_char_def last_rev)
qed

lemma rstrip_char_idem: "rstrip_char c (rstrip_char c s) = rstrip_char c s"
  by (rule rstrip_char_unchanged) (rule rstrip_char_no_trailing)

lemma rstrip_char_all: "set s \<subseteq> {c} \<Longrightarrow> rstrip_char c s = []"
  by (auto simp: rstrip_char_def dropWhile_eq_Nil_conv)

text \<open>The loop over the lines appends to the list it starts from.\<close>

lemma read_lines_from:
  "read_lines f acc = (acc @ fst (read_lines f []), snd (read_lines f []))"
proof (induction f arbitrary: acc)
  case Eof
  then show ?case by simp
next
  case (Line l rest)
  show ?case
    using Line.IH [of "acc @ [rstrip_char sep (strip l)]"]
      Line.IH [of "[rstrip_char sep (strip l)]"] Line.IH [of acc]
    by (simp add: Let_def)
next
  case (Fail e)
  then show ?case by simp
qed

lemma fst_read_lines: "fst (read_lines f acc) = acc @ fst (read_lines f [])"
  using read_lines_from [of f acc] by simp

lemma snd_read_lines: "snd (read_lines f acc) = snd (read_lines f [])"
  using read_lines_from [of f acc] by simp

lemma read_lines_no_trailing:
  "p \<in> set (fst (read_lines f [])) \<Longrightarrow> rstrip_char sep p = p"
proof (induction f)
  case Eof
  then show ?case by simp
next
  case (Line l rest)
  then show ?case
    by (auto simp: Let_def fst_read_lines [of rest "[x]" for x] rstrip_char_idem
        split: if_splits)
next
  case (Fail e)
  then show ?case by simp
qed

lemma read_lines_then:
  "read_lines (lines_then ls f) acc =
     read_lines f (acc @ map (rstrip_char sep)
                           (filter (\<lambda>line. line \<noteq> [] \<and> \<not> startswith line (asc ''#''))
                              (map strip ls)))"
  by (induction ls arbitrary: acc) (simp_all add: Let_def)

lemma load_gitignore_present:
  "fs (join root (asc ''.gitignore'')) = Some f \<Longrightarrow>
   load_gitignore out fs root =
     (case snd (read_lines f []) of
        None \<Rightarrow> (Inr (default_patterns @ fst (read_lines f [])), [])
      | Some e \<Rightarrow>
          (case out (warning_prefix @ exc_str e) of
             None \<Rightarrow> (Inr (default_patterns @ fst (read_lines f [])),
                      [warning_prefix @ exc_str e])
           | Some e' \<Rightarrow> (Inl e', [])))"
  using read_lines_from [of f default_patterns]
  by (simp add: load_gitignore_def print_line_def Let_def split: prod.splits option.splits)

lemma load_gitignore_absent:
  "fs (join root (asc ''.gitignore'')) = None \<Longrightarrow>
   load_gitignore out fs root = (Inr default_patterns, [])"
  by (simp add: load_gitignore_def Let_def)

text \<open>The \<^verbatim>\<open>print\<close> of the handler is the one way an exception leaves the loader.\<close>

lemma load_gitignore_raises:
  "fst (load_gitignore out fs root) = Inl e' \<longleftrightarrow>
     (\<exists>f e. fs (join root (asc ''.gitignore'')) = Some f \<and> snd (read_lines f []) = Some e \<and>
            out (warning_prefix @ exc_str e) = Some e')"
proof (cases "fs (join root (asc ''.gitignore''))")
  case None
  then show ?thesis
    by (simp add: load_gitignore_absent)
next
  case (Some f)
  then show ?thesis
    by (auto simp: load_gitignore_present split: option.splits)
qed

lemma loaded_from_file:
  "fs (join root (asc ''.gitignore'')) = Some f \<Longrightarrow> fst (load_gitignore out fs root) = Inr ps \<Longrightarrow>
   ps = default_patterns @ fst (read_lines f [])"
  by (auto simp: load_gitignore_present split: option.splits)

lemma loaded_patterns:
  assumes "fst (load_gitignore out fs root) = Inr ps"
  shows "\<exists>extra. ps = default_patterns @ extra \<and> (\<forall>p\<in>set extra. rstrip_char sep p = p)"
proof (cases "fs (join root (asc ''.gitignore''))")
  case None
  with assms show ?thesis
    by (simp add: load_gitignore_absent)
next
  case (Some f)
  with assms have "ps = default_patterns @ fst (read_lines f [])"
    by (simp add: loaded_from_file)
  then show ?thesis
    by (simp add: read_lines_no_trailing)
qed

lemma default_patterns_no_trailing: "p \<in> set default_patterns \<Longrightarrow> rstrip_char sep p = p"
  by (auto simp: default_patterns_def asc_def sep_def rstrip_char_def)

lemma loaded_no_trailing:
  "fst (load_gitignore out fs root) = Inr ps \<Longrightarrow> p \<in> set ps \<Longrightarrow> rstrip_char sep p = p"
  using loaded_patterns [of out fs root ps] default_patterns_no_trailing by auto

lemma default_patterns_loaded:
  "fst (load_gitignore out fs r) = Inr ps \<Longrightarrow> set default_patterns \<subseteq> set ps"
  using loaded_patterns [of out fs r ps] by auto

lemma ignore_loop_iff:
  "ignore_loop nm rel_path is_dir ps \<longleftrightarrow>
     (\<exists>p\<in>set ps. fnmatch nm p \<or> fnmatch rel_path p \<or>
                   (is_dir \<and> fnmatch nm (rstrip_char sep p)))"
  by (induction ps) auto

lemma translate_literal:
  "of_char CHR ''*'' \<notin> set pat \<Longrightarrow> of_char CHR ''?'' \<notin> set pat \<Longrightarrow>
   of_char CHR ''['' \<notin> set pat \<Longrightarrow> translate pat = map Lit pat"
  by (induction pat) auto

lemma match_items_literal: "match_items (map Lit pat) s \<longleftrightarrow> s = pat"
proof (induction pat arbitrary: s)
  case Nil
  then show ?case by simp
next
  case (Cons c pat)
  then show ?case
    by (cases s) auto
qed

lemma fnmatch_literal:
  "of_char CHR ''*'' \<notin> set pat \<Longrightarrow> of_char CHR ''?'' \<notin> set pat \<Longrightarrow>
   of_char CHR ''['' \<notin> set pat \<Longrightarrow> fnmatch nm pat \<longleftrightarrow> nm = pat"
  by (simp add: fnmatch_def translate_literal match_items_literal)

lemma fnmatch_empty: "fnmatch nm [] \<longleftrightarrow> nm = []"
  by (simp add: fnmatch_def)

lemma basename_no_sep: "sep \<notin> set (basename p)"
  by (auto simp: basename_def dest: set_takeWhileD)

lemma join_str_nonempty: "xs \<noteq> [] \<Longrightarrow> [] \<notin> set xs \<Longrightarrow> d \<noteq> [] \<Longrightarrow> join_str d xs \<noteq> []"
  by (induction d xs rule: join_str.induct) auto

lemma relpath_nonempty: "relpath cwd path start = Inr r \<Longrightarrow> r \<noteq> []"
proof -
  assume r: "relpath cwd path start = Inr r"
  define start_list where "start_list = filter (\<lambda>x. x \<noteq> []) (split_char sep (abspath cwd start))"
  define path_list where "path_list = filter (\<lambda>x. x \<noteq> []) (split_char sep (abspath cwd path))"
  define rel_list where "rel_list =
    replicate (length start_list - length (commonprefix start_list path_list)) pardir
      @ drop (length (commonprefix start_list path_list)) path_list"
  have "[] \<notin> set path_list"
    by (simp add: path_list_def)
  then have "[] \<notin> set (drop k path_list)" for k
    by (auto dest: in_set_dropD)
  then have ne: "[] \<notin> set rel_list"
    by (auto simp: rel_list_def pardir_def asc_def)
  have "path \<noteq> []"
    using r by (auto simp: relpath_def)
  then have "relpath cwd path start =
      (if rel_list = [] then Inr curdir else Inr (join_str [sep] rel_list))"
    unfolding relpath_def Let_def rel_list_def start_list_def path_list_def
    by (simp only: if_False)
  with r have "r = (if rel_list = [] then curdir else join_str [sep] rel_list)"
    by (simp split: if_splits)
  then show ?thesis
    using ne join_str_nonempty [of rel_list "[sep]"]
    by (auto simp: curdir_def asc_def)
qed

lemma is_ignored_cases:
  "is_ignored cwd self path is_dir =
     (case relpath cwd path (root_path self) of
        Inl e \<Rightarrow> Inl e
      | Inr rel_path \<Rightarrow>
          Inr (rel_path \<noteq> asc ''.'' \<and>
               (\<exists>p\<in>set (ignore_patterns self).
                   fnmatch (basename path) p \<or> fnmatch rel_path p \<or>
                   (is_dir \<and> fnmatch (basename path) (rstrip_char sep p)))))"
  by (simp add: is_ignored_def Let_def ignore_loop_iff split: sum.splits)

lemmas path_defs = relpath_def abspath_def isabs_def normpath_def normpath_step_def
  startswith_def endswith_def sep_def asc_def curdir_def pardir_def basename_def Let_def

lemma relpath_Inl: "relpath cwd path start = Inl e \<Longrightarrow> path = []"
  by (simp add: relpath_def Let_def split: if_splits)

lemma fnmatch_src_tmp: "fnmatch nm (asc ''src/tmp'') \<longleftrightarrow> nm = asc ''src/tmp''"
  by (rule fnmatch_literal) (simp_all add: asc_def)

lemma basename_not_src_tmp: "basename path \<noteq> asc ''src/tmp''"
proof
  assume "basename path = asc ''src/tmp''"
  then have "sep \<in> set (basename path)"
    by (simp add: sep_def asc_def)
  then show False
    by (simp add: basename_no_sep)
qed

lemma other_tmp_no_match:
  "\<not> ignore_loop (asc ''tmp'') (asc ''other/tmp'') is_dir (default_patterns @ [asc ''src/tmp''])"
  by (simp add: default_patterns_def fnmatch_def rstrip_char_def sep_def asc_def)

lemma strip_build_lines:
  "strip (asc ''build/'' @ [10]) = asc ''build/''"
  "strip (asc ''build'' @ [10]) = asc ''build''"
  "strip (asc ''/'' @ [10]) = asc ''/''"
  "strip (asc ''src/tmp'' @ [10]) = asc ''src/tmp''"
  by (simp_all add: strip_def lstrip_def rstrip_def isspace_def asc_def)

lemma rstrip_build:
  "rstrip_char sep (asc ''build/'') = asc ''build''"
  "rstrip_char sep (asc ''build'') = asc ''build''"
  "rstrip_char sep (asc ''/'') = []"
  "rstrip_char sep (asc ''src/tmp'') = asc ''src/tmp''"
  by (simp_all add: rstrip_char_def sep_def asc_def)

lemma not_comment:
  "asc ''build/'' \<noteq> [] \<and> \<not> startswith (asc ''build/'') (asc ''#'')"
  "asc ''build'' \<noteq> [] \<and> \<not> startswith (asc ''build'') (asc ''#'')"
  "asc ''/'' \<noteq> [] \<and> \<not> startswith (asc ''/'') (asc ''#'')"
  "asc ''src/tmp'' \<noteq> [] \<and> \<not> startswith (asc ''src/tmp'') (asc ''#'')"
  by (simp_all add: startswith_def asc_def)

lemma gitignore_path: "join (asc ''/proj'') (asc ''.gitignore'') = asc ''/proj/.gitignore''"
  by (simp add: join_def startswith_def endswith_def sep_def asc_def)

lemma default_name_matches_itself:
  "n \<in> set default_patterns \<Longrightarrow> of_char CHR ''*'' \<notin> set n \<Longrightarrow> fnmatch n n"
  by (auto simp: default_patterns_def asc_def fnmatch_def)

lemma default_patterns_nonempty: "n \<in> set default_patterns \<Longrightarrow> n \<noteq> []"
  by (auto simp: default_patterns_def asc_def)

lemma separator_line_pattern:
  assumes "strip l \<noteq> []" and "set (strip l) \<subseteq> {sep}"
  shows "\<not> startswith (strip l) (asc ''#'')" and "rstrip_char sep (strip l) = []"
proof -
  obtain c cs where l: "strip l = c # cs"
    using assms(1) by (cases "strip l") auto
  with assms(2) have "c = sep"
    by simp
  with l show "\<not> startswith (strip l) (asc ''#'')"
    by (simp add: startswith_def asc_def sep_def)
  show "rstrip_char sep (strip l) = []"
    using assms(2) by (rule rstrip_char_all)
qed

lemma basename_append_entry:
  assumes "sep \<notin> set d" and "a = [] \<or> last a = sep"
  shows "basename (a @ d) = d"
proof -
  have stop: "takeWhile (\<lambda>c. c \<noteq> sep) (rev a) = []"
    using assms(2) by (cases a rule: rev_cases) auto
  have "takeWhile (\<lambda>c. c \<noteq> sep) (rev d @ rev a)
          = rev d @ takeWhile (\<lambda>c. c \<noteq> sep) (rev a)"
    by (rule takeWhile_append2) (use assms(1) in auto)
  with stop have "takeWhile (\<lambda>c. c \<noteq> sep) (rev (a @ d)) = rev d"
    by (simp only: rev_append append_Nil2)
  then show ?thesis
    by (simp add: basename_def)
qed

lemma basename_join_entry:
  assumes "d \<noteq> []" and "sep \<notin> set d"
  shows "basename (join dir d) = d"
proof -
  have "\<not> startswith d [sep]"
    using assms by (cases d) (auto simp: startswith_def)
  then have "join dir d = (if dir = [] \<or> endswith dir [sep] then dir else dir @ [sep]) @ d"
    by (simp add: join_def)
  moreover have "dir = [] \<or> last dir = sep" if "dir = [] \<or> endswith dir [sep]"
    using that by (cases dir rule: rev_cases) (auto simp: endswith_def startswith_def)
  ultimately show ?thesis
    using assms(2) by (auto simp: basename_append_entry)
qed

lemma utf8_warning_ok:
  "utf8_stdout (warning_prefix @ asc ''invalid start byte'') = None"
  "utf8_stdout (warning_prefix @ asc ''Permission denied'') = None"
  by (simp_all add: utf8_stdout_def warning_prefix_def asc_def)

lemma loaded_build:
  "load_gitignore out (only_file (asc ''/proj/.gitignore'') (Line (asc ''build/'' @ [10]) Eof))
     (asc ''/proj'') = (Inr (default_patterns @ [asc ''build'']), [])"
  "load_gitignore out (only_file (asc ''/proj/.gitignore'') (Line (asc ''build'' @ [10]) Eof))
     (asc ''/proj'') = (Inr (default_patterns @ [asc ''build'']), [])"
  by (simp_all add: load_gitignore_present [where f = "Line (asc ''build/'' @ [10]) Eof"]
      load_gitignore_present [where f = "Line (asc ''build'' @ [10]) Eof"]
      gitignore_path only_file_def Let_def strip_build_lines not_comment rstrip_build)

text \<open>
  C9. Take any pattern list the loader returns, for any ignore file, root and standard
  output. None of its patterns ends in a separator, so stripping one in the third test
  changes nothing, and \<^verbatim>\<open>_is_ignored\<close> gives the same result for a path whether it
  is called for a directory or not.
\<close>

theorem directory_flag_irrelevant:
  assumes "fst (load_gitignore out fs r) = Inr ps"
  shows "(\<forall>p\<in>set ps. rstrip_char sep p = p) \<and>
         is_ignored cwd (self\<lparr>ignore_patterns := ps\<rparr>) path True =
         is_ignored cwd (self\<lparr>ignore_patterns := ps\<rparr>) path False"
proof -
  have fixed: "\<forall>p\<in>set ps. rstrip_char sep p = p"
    using assms by (auto dest: loaded_no_trailing)
  then show ?thesis
    by (auto simp: is_ignored_cases split: sum.splits)
qed

text \<open>
  A root \<^verbatim>\<open>/proj\<close> whose \<^verbatim>\<open>.gitignore\<close> has the line \<^verbatim>\<open>build/\<close>, and the
  path \<^verbatim>\<open>/proj/build\<close>.
\<close>

theorem directory_flag_irrelevant_witness:
  "fst (load_gitignore utf8_stdout
          (only_file (asc ''/proj/.gitignore'') (Line (asc ''build/'' @ [10]) Eof))
          (asc ''/proj'')) = Inr (default_patterns @ [asc ''build'']) \<and>
   is_ignored (asc ''/'')
     (\<lparr>root_path = asc ''/proj'', output_file = asc ''out.txt'', ignore_patterns = []\<rparr>
        \<lparr>ignore_patterns := default_patterns @ [asc ''build'']\<rparr>)
     (asc ''/proj/build'') True =
   is_ignored (asc ''/'')
     (\<lparr>root_path = asc ''/proj'', output_file = asc ''out.txt'', ignore_patterns = []\<rparr>
        \<lparr>ignore_patterns := default_patterns @ [asc ''build'']\<rparr>)
     (asc ''/proj/build'') False"
proof -
  have h: "fst (load_gitignore utf8_stdout
          (only_file (asc ''/proj/.gitignore'') (Line (asc ''build/'' @ [10]) Eof))
          (asc ''/proj'')) = Inr (default_patterns @ [asc ''build''])"
    by (simp add: loaded_build)
  from directory_flag_irrelevant [OF h, THEN conjunct2] h show ?thesis
    by blast
qed

lemma build_ignored:
  assumes "asc ''build'' \<in> set ps" and "basename path = asc ''build''"
    and "relpath cwd path (root_path self) \<noteq> Inr (asc ''.'')"
  shows "is_ignored cwd (self\<lparr>ignore_patterns := ps\<rparr>) path is_dir = Inr True"
proof -
  have "path \<noteq> []"
    using assms(2) by (auto simp: basename_def asc_def)
  then obtain rel where rel: "relpath cwd path (root_path self) = Inr rel"
    by (cases "relpath cwd path (root_path self)") (auto dest: relpath_Inl)
  have "fnmatch (basename path) (asc ''build'')"
    using assms(2) by (simp add: fnmatch_literal asc_def)
  with assms(1,3) rel show ?thesis
    by (auto simp: is_ignored_cases)
qed

text \<open>
  C7. Take two ignore files that differ in one line, \<^verbatim>\<open>build/\<close> in the one and
  \<^verbatim>\<open>build\<close> in the other (with any white space around them). Loading them gives the
  same result and the same console output. When the load returns, the line has become the
  pattern \<^verbatim>\<open>build\<close> in both lists, at its place among the patterns of the other lines:
  the trailing separator is stripped. So \<^verbatim>\<open>_is_ignored\<close> answers the same for every
  path, and a path other than the root whose base name is \<^verbatim>\<open>build\<close> is ignored.
\<close>

theorem trailing_separator_line_equivalent:
  assumes "strip l1 = asc ''build/''" and "strip l2 = asc ''build''"
    and "fs1 (join r (asc ''.gitignore'')) = Some (lines_then pre (Line l1 rest))"
    and "fs2 (join r (asc ''.gitignore'')) = Some (lines_then pre (Line l2 rest))"
  shows "load_gitignore out fs1 r = load_gitignore out fs2 r \<and>
         (fst (load_gitignore out fs1 r) = Inr ps1 \<and> fst (load_gitignore out fs2 r) = Inr ps2 \<longrightarrow>
            ps1 = default_patterns @
                    map (rstrip_char sep)
                      (filter (\<lambda>line. line \<noteq> [] \<and> \<not> startswith line (asc ''#''))
                         (map strip pre)) @
                    asc ''build'' # fst (read_lines rest []) \<and>
            ps2 = ps1 \<and>
            is_ignored cwd (self\<lparr>ignore_patterns := ps1\<rparr>) path is_dir =
            is_ignored cwd (self\<lparr>ignore_patterns := ps2\<rparr>) path is_dir \<and>
            (basename path = asc ''build'' \<and>
             relpath cwd path (root_path self) \<noteq> Inr (asc ''.'') \<longrightarrow>
               is_ignored cwd (self\<lparr>ignore_patterns := ps1\<rparr>) path is_dir = Inr True))"
proof -
  let ?before = "map (rstrip_char sep)
      (filter (\<lambda>line. line \<noteq> [] \<and> \<not> startswith line (asc ''#'')) (map strip pre))"
  have r1: "read_lines (lines_then pre (Line l1 rest)) [] =
      read_lines rest (?before @ [asc ''build''])"
    using assms(1) by (simp add: read_lines_then Let_def not_comment rstrip_build)
  have r2: "read_lines (lines_then pre (Line l2 rest)) [] =
      read_lines rest (?before @ [asc ''build''])"
    using assms(2) by (simp add: read_lines_then Let_def not_comment rstrip_build)
  have "read_lines (lines_then pre (Line l1 rest)) [] =
      read_lines (lines_then pre (Line l2 rest)) []"
    by (simp only: r1 r2)
  then have same: "load_gitignore out fs1 r = load_gitignore out fs2 r"
    using assms(3,4) by (simp add: load_gitignore_present cong: option.case_cong)
  have lines: "fst (read_lines (lines_then pre (Line l1 rest)) []) =
      ?before @ asc ''build'' # fst (read_lines rest [])"
    using fst_read_lines [of rest "?before @ [asc ''build'']"] by (simp add: r1)
  have loaded: "ps1 = default_patterns @ ?before @ asc ''build'' # fst (read_lines rest [])"
    if "fst (load_gitignore out fs1 r) = Inr ps1"
    using loaded_from_file [OF assms(3) that] by (simp add: lines)
  have ignored: "is_ignored cwd (self\<lparr>ignore_patterns := ps1\<rparr>) path is_dir = Inr True"
    if "fst (load_gitignore out fs1 r) = Inr ps1" and "basename path = asc ''build''"
      and "relpath cwd path (root_path self) \<noteq> Inr (asc ''.'')"
  proof (rule build_ignored)
    show "asc ''build'' \<in> set ps1"
      using loaded [OF that(1)] by simp
  qed (use that in auto)
  from same loaded ignored show ?thesis
    by auto
qed

text \<open>
  A root \<^verbatim>\<open>/proj\<close> whose ignore file is the one line \<^verbatim>\<open>build/\<close>, or the one line
  \<^verbatim>\<open>build\<close>, and the directory \<^verbatim>\<open>/proj/sub/build\<close>.
\<close>

theorem trailing_separator_line_equivalent_witness:
  "fst (load_gitignore utf8_stdout
          (only_file (asc ''/proj/.gitignore'') (Line (asc ''build/'' @ [10]) Eof))
          (asc ''/proj'')) = Inr (default_patterns @ [asc ''build'']) \<and>
   fst (load_gitignore utf8_stdout
          (only_file (asc ''/proj/.gitignore'') (Line (asc ''build'' @ [10]) Eof))
          (asc ''/proj'')) = Inr (default_patterns @ [asc ''build'']) \<and>
   basename (asc ''/proj/sub/build'') = asc ''build'' \<and>
   relpath (asc ''/'') (asc ''/proj/sub/build'') (asc ''/proj'') = Inr (asc ''sub/build'') \<and>
   is_ignored (asc ''/'')
     (\<lparr>root_path = asc ''/proj'', output_file = asc ''out.txt'', ignore_patterns = []\<rparr>
        \<lparr>ignore_patterns := default_patterns @ [asc ''build'']\<rparr>)
     (asc ''/proj/sub/build'') False = Inr True"
proof -
  let ?fs1 = "only_file (asc ''/proj/.gitignore'') (Line (asc ''build/'' @ [10]) Eof)"
  let ?fs2 = "only_file (asc ''/proj/.gitignore'') (Line (asc ''build'' @ [10]) Eof)"
  let ?self = "\<lparr>root_path = asc ''/proj'', output_file = asc ''out.txt'', ignore_patterns = []\<rparr>"
  have h3: "?fs1 (join (asc ''/proj'') (asc ''.gitignore''))
            = Some (lines_then [] (Line (asc ''build/'' @ [10]) Eof))"
    by (simp add: gitignore_path only_file_def)
  have h4: "?fs2 (join (asc ''/proj'') (asc ''.gitignore''))
            = Some (lines_then [] (Line (asc ''build'' @ [10]) Eof))"
    by (simp add: gitignore_path only_file_def)
  have l1: "fst (load_gitignore utf8_stdout ?fs1 (asc ''/proj''))
              = Inr (default_patterns @ [asc ''build''])"
    by (simp add: loaded_build)
  have l2: "fst (load_gitignore utf8_stdout ?fs2 (asc ''/proj''))
              = Inr (default_patterns @ [asc ''build''])"
    by (simp add: loaded_build)
  have nm: "basename (asc ''/proj/sub/build'') = asc ''build''"
    by (simp add: path_defs)
  have rel: "relpath (asc ''/'') (asc ''/proj/sub/build'') (asc ''/proj'') = Inr (asc ''sub/build'')"
    by (simp add: path_defs)
  have not_root: "relpath (asc ''/'') (asc ''/proj/sub/build'') (root_path ?self)
                    \<noteq> Inr (asc ''.'')"
    by (simp add: rel) (simp add: asc_def)
  from trailing_separator_line_equivalent
         [of "asc ''build/'' @ [10]" "asc ''build'' @ [10]" ?fs1 "asc ''/proj''" "[]" Eof ?fs2
             utf8_stdout "default_patterns @ [asc ''build'']"
             "default_patterns @ [asc ''build'']" "asc ''/''" ?self "asc ''/proj/sub/build''"
             False,
          OF strip_build_lines(1) strip_build_lines(2) h3 h4]
       l1 l2 nm rel not_root
  show ?thesis
    by simp
qed

text \<open>
  C5 (as the code has it). When reading the ignore file raises after the lines \<open>ls\<close>
  have been delivered, and the warning can be written to the standard output, the loader
  prints that one warning with the text of the exception and returns, without raising, the
  built-in patterns followed by the patterns of the lines read before the failure. When
  the failure comes before any line, as when the file cannot be opened, the result is the
  built-in list alone.
\<close>

theorem read_failure_keeps_earlier_lines:
  assumes "fs (join r (asc ''.gitignore'')) = Some (lines_then ls (Fail e))"
    and "out (warning_prefix @ exc_str e) = None"
  shows "load_gitignore out fs r =
           (Inr (default_patterns @
                   map (rstrip_char sep)
                     (filter (\<lambda>line. line \<noteq> [] \<and> \<not> startswith line (asc ''#''))
                        (map strip ls))),
            [warning_prefix @ exc_str e]) \<and>
         (ls = [] \<longrightarrow> fst (load_gitignore out fs r) = Inr default_patterns)"
  using assms by (simp add: load_gitignore_present read_lines_then)

text \<open>
  An ignore file whose first line \<^verbatim>\<open>build\<close> is read before a later block of the file
  fails to decode, with a standard output in UTF-8.
\<close>

theorem read_failure_keeps_earlier_lines_witness:
  "utf8_stdout (warning_prefix @ asc ''invalid start byte'') = None \<and>
   load_gitignore utf8_stdout
     (only_file (asc ''/proj/.gitignore'')
        (Line (asc ''build'' @ [10]) (Fail (UnicodeDecodeError (asc ''invalid start byte'')))))
     (asc ''/proj'')
   = (Inr (default_patterns @ [asc ''build'']),
      [warning_prefix @ asc ''invalid start byte''])"
proof -
  let ?e = "UnicodeDecodeError (asc ''invalid start byte'')"
  have h: "only_file (asc ''/proj/.gitignore'') (Line (asc ''build'' @ [10]) (Fail ?e))
             (join (asc ''/proj'') (asc ''.gitignore''))
           = Some (lines_then [asc ''build'' @ [10]] (Fail ?e))"
    by (simp add: gitignore_path only_file_def)
  have ok: "utf8_stdout (warning_prefix @ exc_str ?e) = None"
    by (simp add: utf8_warning_ok)
  from read_failure_keeps_earlier_lines
         [of "only_file (asc ''/proj/.gitignore'') (Line (asc ''build'' @ [10]) (Fail ?e))"
             "asc ''/proj''" "[asc ''build'' @ [10]]" ?e utf8_stdout, OF h ok]
  show ?thesis
    by (simp add: utf8_warning_ok strip_build_lines not_comment rstrip_build)
qed

text \<open>
  Against C5 as stated: with that ignore file the pattern \<^verbatim>\<open>build\<close> stays in the
  result, which is not the built-in list.
\<close>

theorem read_failure_counterexample:
  "fst (load_gitignore utf8_stdout
          (only_file (asc ''/proj/.gitignore'')
             (Line (asc ''build'' @ [10])
                (Fail (UnicodeDecodeError (asc ''invalid start byte'')))))
          (asc ''/proj''))
   = Inr (default_patterns @ [asc ''build'']) \<and>
   default_patterns @ [asc ''build''] \<noteq> default_patterns"
proof -
  have "only_file (asc ''/proj/.gitignore'')
          (Line (asc ''build'' @ [10]) (Fail (UnicodeDecodeError (asc ''invalid start byte''))))
          (join (asc ''/proj'') (asc ''.gitignore''))
        = Some (Line (asc ''build'' @ [10]) (Fail (UnicodeDecodeError (asc ''invalid start byte''))))"
    by (simp add: gitignore_path only_file_def)
  then show ?thesis
    by (simp add: load_gitignore_present Let_def strip_build_lines not_comment rstrip_build
        utf8_warning_ok)
qed

lemma loaded_src_tmp:
  "load_gitignore out (only_file (join r (asc ''.gitignore'')) (Line (asc ''src/tmp'' @ [10]) Eof)) r
     = (Inr (default_patterns @ [asc ''src/tmp'']), [])"
  by (simp add: load_gitignore_present [where f = "Line (asc ''src/tmp'' @ [10]) Eof"]
      only_file_def Let_def strip_build_lines not_comment rstrip_build)

text \<open>
  C4. Putting the pattern \<^verbatim>\<open>src/tmp\<close> anywhere into a list of patterns changes the
  answer of \<^verbatim>\<open>_is_ignored\<close> exactly for the paths whose root-relative form is
  \<^verbatim>\<open>src/tmp\<close>, which become ignored, for every root, working directory and directory
  flag. An ignore file holding that one line loads, for every root and standard output,
  as the built-in patterns followed by \<^verbatim>\<open>src/tmp\<close>; with that list a path whose
  relative form is \<^verbatim>\<open>src/tmp\<close> is ignored, and a directory named \<^verbatim>\<open>tmp\<close> whose
  relative form is \<^verbatim>\<open>other/tmp\<close> is not.
\<close>

theorem separator_pattern_relative_only:
  "is_ignored cwd (self\<lparr>ignore_patterns := ps @ asc ''src/tmp'' # qs\<rparr>) path is_dir =
     (case is_ignored cwd (self\<lparr>ignore_patterns := ps @ qs\<rparr>) path is_dir of
        Inl e \<Rightarrow> Inl e
      | Inr b \<Rightarrow> Inr (b \<or> relpath cwd path (root_path self) = Inr (asc ''src/tmp''))) \<and>
   fst (load_gitignore out
          (only_file (join r (asc ''.gitignore'')) (Line (asc ''src/tmp'' @ [10]) Eof)) r)
     = Inr (default_patterns @ [asc ''src/tmp'']) \<and>
   (relpath cwd path r = Inr (asc ''src/tmp'') \<longrightarrow>
      is_ignored cwd
        \<lparr>root_path = r, output_file = output,
         ignore_patterns = default_patterns @ [asc ''src/tmp'']\<rparr>
        path is_dir = Inr True) \<and>
   (relpath cwd path r = Inr (asc ''other/tmp'') \<and> basename path = asc ''tmp'' \<longrightarrow>
      is_ignored cwd
        \<lparr>root_path = r, output_file = output,
         ignore_patterns = default_patterns @ [asc ''src/tmp'']\<rparr>
        path is_dir = Inr False)"
proof -
  have dot: "asc ''src/tmp'' \<noteq> asc ''.''" "asc ''other/tmp'' \<noteq> asc ''.''"
    by (simp_all add: asc_def)
  have general:
    "is_ignored cwd (self\<lparr>ignore_patterns := ps @ asc ''src/tmp'' # qs\<rparr>) path is_dir =
       (case is_ignored cwd (self\<lparr>ignore_patterns := ps @ qs\<rparr>) path is_dir of
          Inl e \<Rightarrow> Inl e
        | Inr b \<Rightarrow> Inr (b \<or> relpath cwd path (root_path self) = Inr (asc ''src/tmp'')))"
    using dot(1)
    by (auto simp: is_ignored_cases fnmatch_src_tmp rstrip_build basename_not_src_tmp
        split: sum.splits)
  have loaded: "fst (load_gitignore out
          (only_file (join r (asc ''.gitignore'')) (Line (asc ''src/tmp'' @ [10]) Eof)) r)
     = Inr (default_patterns @ [asc ''src/tmp''])"
    by (simp add: loaded_src_tmp)
  have inside: "is_ignored cwd
        \<lparr>root_path = r, output_file = output,
         ignore_patterns = default_patterns @ [asc ''src/tmp'']\<rparr>
        path is_dir = Inr True"
    if "relpath cwd path r = Inr (asc ''src/tmp'')"
    using that dot(1) by (simp add: is_ignored_cases fnmatch_src_tmp)
  have elsewhere: "is_ignored cwd
        \<lparr>root_path = r, output_file = output,
         ignore_patterns = default_patterns @ [asc ''src/tmp'']\<rparr>
        path is_dir = Inr False"
    if "relpath cwd path r = Inr (asc ''other/tmp'')" and "basename path = asc ''tmp''"
    using that dot(2) other_tmp_no_match [of is_dir]
    by (simp add: is_ignored_def)
  from general loaded inside elsewhere show ?thesis
    by blast
qed

text \<open>The root \<^verbatim>\<open>/proj\<close> with the directories \<^verbatim>\<open>src/tmp\<close> and \<^verbatim>\<open>other/tmp\<close>.\<close>

theorem separator_pattern_relative_only_witness:
  "relpath (asc ''/'') (asc ''/proj/src/tmp'') (asc ''/proj'') = Inr (asc ''src/tmp'') \<and>
   relpath (asc ''/'') (asc ''/proj/other/tmp'') (asc ''/proj'') = Inr (asc ''other/tmp'') \<and>
   basename (asc ''/proj/other/tmp'') = asc ''tmp'' \<and>
   fst (load_gitignore utf8_stdout
          (only_file (join (asc ''/proj'') (asc ''.gitignore''))
             (Line (asc ''src/tmp'' @ [10]) Eof)) (asc ''/proj''))
     = Inr (default_patterns @ [asc ''src/tmp'']) \<and>
   is_ignored (asc ''/'')
     \<lparr>root_path = asc ''/proj'', output_file = asc ''out.txt'',
      ignore_patterns = default_patterns @ [asc ''src/tmp'']\<rparr>
     (asc ''/proj/src/tmp'') True = Inr True \<and>
   is_ignored (asc ''/'')
     \<lparr>root_path = asc ''/proj'', output_file = asc ''out.txt'',
      ignore_patterns = default_patterns @ [asc ''src/tmp'']\<rparr>
     (asc ''/proj/other/tmp'') True = Inr False"
proof -
  have h1: "relpath (asc ''/'') (asc ''/proj/src/tmp'') (asc ''/proj'') = Inr (asc ''src/tmp'')"
    by (simp add: path_defs)
  have h2: "relpath (asc ''/'') (asc ''/proj/other/tmp'') (asc ''/proj'') = Inr (asc ''other/tmp'')"
    by (simp add: path_defs)
  have h3: "basename (asc ''/proj/other/tmp'') = asc ''tmp''"
    by (simp add: path_defs)
  from separator_pattern_relative_only
         [of "asc ''/''" _ _ _ "asc ''/proj/src/tmp''" True utf8_stdout "asc ''/proj''"
             "asc ''out.txt''"]
       separator_pattern_relative_only
         [of "asc ''/''" _ _ _ "asc ''/proj/other/tmp''" True utf8_stdout "asc ''/proj''"
             "asc ''out.txt''"]
       h1 h2 h3
  show ?thesis
    by blast
qed

text \<open>
  C6. Take a built-in pattern without a wild card (every built-in but \<^verbatim>\<open>*.pyc\<close> and
  \<^verbatim>\<open>*.pyo\<close>), a scanner whose patterns were loaded from any ignore file or none, and
  a path with that base name which is not the root itself. Then \<^verbatim>\<open>_is_ignored\<close>
  returns true, however deep the path lies and whatever the directory flag.
\<close>

theorem builtin_name_ignored_at_any_depth:
  assumes "n \<in> set default_patterns" and "of_char CHR ''*'' \<notin> set n"
    and "basename path = n"
    and "relpath cwd path (root_path self) \<noteq> Inr (asc ''.'')"
    and "fst (load_gitignore out fs r) = Inr (ignore_patterns self)"
  shows "is_ignored cwd self path is_dir = Inr True"
proof -
  have "n \<noteq> []"
    using assms(1) by (rule default_patterns_nonempty)
  with assms(3) have "path \<noteq> []"
    by (auto simp: basename_def)
  then obtain rel where rel: "relpath cwd path (root_path self) = Inr rel"
    by (cases "relpath cwd path (root_path self)") (auto dest: relpath_Inl)
  with assms(4) have not_root: "rel \<noteq> asc ''.''"
    by simp
  have "n \<in> set (ignore_patterns self)"
    using assms(1) default_patterns_loaded [OF assms(5)] by auto
  moreover have "fnmatch (basename path) n"
    using assms(1-3) by (simp add: default_name_matches_itself)
  ultimately show ?thesis
    using rel not_root by (auto simp: is_ignored_cases)
qed

text \<open>
  A cache directory four levels below the root \<^verbatim>\<open>/proj\<close>, whose ignore file has the
  line \<^verbatim>\<open>build/\<close>.
\<close>

theorem builtin_name_ignored_at_any_depth_witness:
  "asc ''__pycache__'' \<in> set default_patterns \<and>
   of_char CHR ''*'' \<notin> set (asc ''__pycache__'') \<and>
   basename (asc ''/proj/a/b/c/__pycache__'') = asc ''__pycache__'' \<and>
   relpath (asc ''/'') (asc ''/proj/a/b/c/__pycache__'') (asc ''/proj'')
     = Inr (asc ''a/b/c/__pycache__'') \<and>
   fst (load_gitignore utf8_stdout
          (only_file (asc ''/proj/.gitignore'') (Line (asc ''build/'' @ [10]) Eof))
          (asc ''/proj'')) = Inr (default_patterns @ [asc ''build'']) \<and>
   is_ignored (asc ''/'')
     \<lparr>root_path = asc ''/proj'', output_file = asc ''out.txt'',
      ignore_patterns = default_patterns @ [asc ''build'']\<rparr>
     (asc ''/proj/a/b/c/__pycache__'') False = Inr True"
proof -
  let ?self = "\<lparr>root_path = asc ''/proj'', output_file = asc ''out.txt'',
      ignore_patterns = default_patterns @ [asc ''build'']\<rparr>"
  let ?fs = "only_file (asc ''/proj/.gitignore'') (Line (asc ''build/'' @ [10]) Eof)"
  have h1: "asc ''__pycache__'' \<in> set default_patterns"
    by (simp add: default_patterns_def)
  have h2: "of_char CHR ''*'' \<notin> set (asc ''__pycache__'')"
    by (simp add: asc_def)
  have h3: "basename (asc ''/proj/a/b/c/__pycache__'') = asc ''__pycache__''"
    by (simp add: path_defs)
  have rel: "relpath (asc ''/'') (asc ''/proj/a/b/c/__pycache__'') (asc ''/proj'')
     = Inr (asc ''a/b/c/__pycache__'')"
    by (simp add: path_defs)
  have h4: "relpath (asc ''/'') (asc ''/proj/a/b/c/__pycache__'') (root_path ?self)
     \<noteq> Inr (asc ''.'')"
    by (simp add: rel) (simp add: asc_def)
  have loaded: "fst (load_gitignore utf8_stdout ?fs (asc ''/proj''))
      = Inr (default_patterns @ [asc ''build''])"
    by (simp add: loaded_build)
  then have h5: "fst (load_gitignore utf8_stdout ?fs (asc ''/proj'')) = Inr (ignore_patterns ?self)"
    by simp
  from builtin_name_ignored_at_any_depth
         [of "asc ''__pycache__''" "asc ''/proj/a/b/c/__pycache__''" "asc ''/''" ?self
             utf8_stdout ?fs "asc ''/proj''" False, OF h1 h2 h3 h4 h5]
       h1 h2 h3 rel loaded
  show ?thesis
    by simp
qed

text \<open>
  C10 (as the code has it). A line of the ignore file made of path separators only is
  loaded as the empty pattern. The empty pattern matches the empty string only, and a
  root-relative path is never empty, so for every path whose base name is not empty the
  line changes no answer of \<^verbatim>\<open>_is_ignored\<close>: when the file without the line loads,
  so does the file with it, to the same patterns and the empty one. The paths the tree
  walk asks about are of this kind: \<^verbatim>\<open>os.path.join\<close> of a directory and the name of
  one of its entries has that name as its base name.
\<close>

theorem separator_only_line_harmless:
  assumes "strip l \<noteq> []" and "set (strip l) \<subseteq> {sep}"
    and "fs1 (join r (asc ''.gitignore'')) = Some (lines_then pre (Line l rest))"
    and "fs0 (join r (asc ''.gitignore'')) = Some (lines_then pre rest)"
    and "basename path \<noteq> []"
    and "fst (load_gitignore out fs0 r) = Inr ps0"
  shows "(\<exists>ps1. fst (load_gitignore out fs1 r) = Inr ps1 \<and>
            set ps1 = insert [] (set ps0) \<and>
            is_ignored cwd (self\<lparr>ignore_patterns := ps1\<rparr>) path is_dir =
            is_ignored cwd (self\<lparr>ignore_patterns := ps0\<rparr>) path is_dir) \<and>
         (d \<noteq> [] \<and> sep \<notin> set d \<longrightarrow> basename (join dir d) = d)"
proof -
  let ?before = "map (rstrip_char sep)
      (filter (\<lambda>line. line \<noteq> [] \<and> \<not> startswith line (asc ''#'')) (map strip pre))"
  let ?ps1 = "default_patterns @ ?before @ [] # fst (read_lines rest [])"
  have r1: "read_lines (lines_then pre (Line l rest)) [] = read_lines rest (?before @ [[]])"
    using assms(1) separator_line_pattern [OF assms(1,2)]
    by (simp add: read_lines_then Let_def)
  have r0: "read_lines (lines_then pre rest) [] = read_lines rest ?before"
    by (simp add: read_lines_then)
  have lines1: "fst (read_lines (lines_then pre (Line l rest)) []) =
      ?before @ [] # fst (read_lines rest [])"
    using fst_read_lines [of rest "?before @ [[]]"] by (simp add: r1)
  have lines0: "fst (read_lines (lines_then pre rest) []) = ?before @ fst (read_lines rest [])"
    using fst_read_lines [of rest ?before] by (simp add: r0)
  have ends: "snd (read_lines (lines_then pre (Line l rest)) []) =
      snd (read_lines (lines_then pre rest) [])"
    using snd_read_lines [of rest "?before @ [[]]"] snd_read_lines [of rest ?before]
    by (simp add: r1 r0)
  have ps0: "ps0 = default_patterns @ ?before @ fst (read_lines rest [])"
    using loaded_from_file [OF assms(4,6)] by (simp add: lines0)
  have "fst (load_gitignore out fs0 r) \<noteq> Inl e" for e
    using assms(6) by simp
  then have "fst (load_gitignore out fs1 r) \<noteq> Inl e" for e
    using assms(3,4) ends by (auto simp: load_gitignore_raises)
  then obtain ps1 where l1: "fst (load_gitignore out fs1 r) = Inr ps1"
    by (cases "fst (load_gitignore out fs1 r)") auto
  have ps1: "ps1 = ?ps1"
    using loaded_from_file [OF assms(3) l1] by (simp add: lines1)
  have sets: "set ps1 = insert [] (set ps0)"
    by (auto simp: ps1 ps0)
  have "rstrip_char sep [] = []"
    by (simp add: rstrip_char_def)
  then have "is_ignored cwd (self\<lparr>ignore_patterns := ps1\<rparr>) path is_dir =
      is_ignored cwd (self\<lparr>ignore_patterns := ps0\<rparr>) path is_dir"
    using assms(5)
    by (auto simp: is_ignored_cases sets fnmatch_empty split: sum.splits dest: relpath_nonempty)
  with l1 sets show ?thesis
    by (simp add: basename_join_entry)
qed

text \<open>
  An ignore file whose only line is \<^verbatim>\<open>/\<close>, against the empty ignore file, for the
  directory \<^verbatim>\<open>/proj/docs\<close>.
\<close>

theorem separator_only_line_harmless_witness:
  "strip (asc ''/'' @ [10]) \<noteq> [] \<and> set (strip (asc ''/'' @ [10])) \<subseteq> {sep} \<and>
   basename (asc ''/proj/docs'') \<noteq> [] \<and>
   fst (load_gitignore utf8_stdout (only_file (asc ''/proj/.gitignore'') Eof) (asc ''/proj''))
     = Inr default_patterns \<and>
   fst (load_gitignore utf8_stdout
          (only_file (asc ''/proj/.gitignore'') (Line (asc ''/'' @ [10]) Eof)) (asc ''/proj''))
     = Inr (default_patterns @ [[]]) \<and>
   is_ignored (asc ''/'')
     (\<lparr>root_path = asc ''/proj'', output_file = asc ''out.txt'', ignore_patterns = []\<rparr>
        \<lparr>ignore_patterns := default_patterns @ [[]]\<rparr>)
     (asc ''/proj/docs'') True =
   is_ignored (asc ''/'')
     (\<lparr>root_path = asc ''/proj'', output_file = asc ''out.txt'', ignore_patterns = []\<rparr>
        \<lparr>ignore_patterns := default_patterns\<rparr>)
     (asc ''/proj/docs'') True"
proof -
  let ?fs1 = "only_file (asc ''/proj/.gitignore'') (Line (asc ''/'' @ [10]) Eof)"
  let ?fs0 = "only_file (asc ''/proj/.gitignore'') Eof"
  have h1: "strip (asc ''/'' @ [10]) \<noteq> []"
    by (simp add: strip_build_lines) (simp add: asc_def)
  have h2: "set (strip (asc ''/'' @ [10])) \<subseteq> {sep}"
    by (simp add: strip_build_lines) (simp add: asc_def sep_def)
  have h3: "?fs1 (join (asc ''/proj'') (asc ''.gitignore''))
            = Some (lines_then [] (Line (asc ''/'' @ [10]) Eof))"
    by (simp add: gitignore_path only_file_def)
  have h4: "?fs0 (join (asc ''/proj'') (asc ''.gitignore'')) = Some (lines_then [] Eof)"
    by (simp add: gitignore_path only_file_def)
  have h5: "basename (asc ''/proj/docs'') \<noteq> []"
    by (simp add: path_defs)
  have h6: "fst (load_gitignore utf8_stdout ?fs0 (asc ''/proj'')) = Inr default_patterns"
    by (simp add: load_gitignore_present [where f = Eof] gitignore_path only_file_def)
  have l1: "fst (load_gitignore utf8_stdout ?fs1 (asc ''/proj'')) = Inr (default_patterns @ [[]])"
    by (simp add: load_gitignore_present [where f = "Line (asc ''/'' @ [10]) Eof"]
        gitignore_path only_file_def Let_def strip_build_lines not_comment rstrip_build)
  from separator_only_line_harmless
         [of "asc ''/'' @ [10]" ?fs1 "asc ''/proj''" "[]" Eof ?fs0 "asc ''/proj/docs''"
             utf8_stdout default_patterns "asc ''/''"
             "\<lparr>root_path = asc ''/proj'', output_file = asc ''out.txt'', ignore_patterns = []\<rparr>"
             True,
          OF h1 h2 h3 h4 h5 h6] l1 h1 h2 h5 h6
  show ?thesis
    by auto
qed

text \<open>
  Against C10 as stated: the path \<^verbatim>\<open>/proj/docs/\<close> ends in a separator, so its base
  name is empty while its relative form is \<^verbatim>\<open>docs\<close>. With the line \<^verbatim>\<open>/\<close> in the
  ignore file it is ignored; with an empty ignore file it is not.
\<close>

theorem separator_only_line_counterexample:
  "fst (init_scanner (asc ''/'') utf8_stdout
          (only_file (asc ''/proj/.gitignore'') (Line (asc ''/'' @ [10]) Eof))
          (asc ''/proj'') (asc ''out.txt''))
     = Inr \<lparr>root_path = asc ''/proj'', output_file = asc ''out.txt'',
            ignore_patterns = default_patterns @ [[]]\<rparr> \<and>
   is_ignored (asc ''/'')
     \<lparr>root_path = asc ''/proj'', output_file = asc ''out.txt'',
      ignore_patterns = default_patterns @ [[]]\<rparr>
     (asc ''/proj/docs/'') True = Inr True \<and>
   fst (init_scanner (asc ''/'') utf8_stdout
          (only_file (asc ''/proj/.gitignore'') Eof)
          (asc ''/proj'') (asc ''out.txt''))
     = Inr \<lparr>root_path = asc ''/proj'', output_file = asc ''out.txt'',
            ignore_patterns = default_patterns\<rparr> \<and>
   is_ignored (asc ''/'')
     \<lparr>root_path = asc ''/proj'', output_file = asc ''out.txt'',
      ignore_patterns = default_patterns\<rparr>
     (asc ''/proj/docs/'') True = Inr False"
proof -
  have root: "abspath (asc ''/'') (asc ''/proj'') = asc ''/proj''"
    by (simp add: path_defs)
  have with_line: "load_gitignore utf8_stdout
        (only_file (asc ''/proj/.gitignore'') (Line (asc ''/'' @ [10]) Eof)) (asc ''/proj'')
      = (Inr (default_patterns @ [[]]), [])"
    by (simp add: load_gitignore_present [where f = "Line (asc ''/'' @ [10]) Eof"]
        gitignore_path only_file_def Let_def strip_build_lines not_comment rstrip_build)
  have without: "load_gitignore utf8_stdout (only_file (asc ''/proj/.gitignore'') Eof) (asc ''/proj'')
      = (Inr default_patterns, [])"
    by (simp add: load_gitignore_present [where f = Eof] gitignore_path only_file_def)
  have rel: "relpath (asc ''/'') (asc ''/proj/docs/'') (asc ''/proj'') = Inr (asc ''docs'')"
    by (simp add: path_defs)
  have nm: "basename (asc ''/proj/docs/'') = []"
    by (simp add: path_defs)
  have dot: "asc ''docs'' \<noteq> asc ''.''"
    by (simp add: asc_def)
  have no_default: "\<not> ignore_loop [] (asc ''docs'') True default_patterns"
    by (simp add: default_patterns_def fnmatch_def rstrip_char_def sep_def asc_def)
  have empty_pattern: "ignore_loop [] (asc ''docs'') True (default_patterns @ [[]])"
    by (simp add: ignore_loop_iff fnmatch_empty)
  show ?thesis
    using dot no_default empty_pattern
    by (simp add: is_ignored_def init_scanner_def Let_def root with_line without rel nm)
qed

end
